theory Spec2Isabelle
  imports Main "HOL-Library.Sublist" "HOL-Library.AList"
begin

section \<open>The DuckDuckGo search wrapper (metagpt/tools/search_engine_ddg.py)\<close>

text \<open>
  The module wraps one call of a search provider, \<^verbatim>\<open>self.ddgs.text(query)\<close>, in a
  rate limiter, a retry policy and a cache. The provider client is not part of the
  repository; it is taken as a parameter. What \<^verbatim>\<open>self.ddgs.text(query)\<close> returns is
  a lazily produced sequence: it is given as the list of the outcomes of the successive
  \<^verbatim>\<open>next\<close> calls on it, the end of the list being the end of the sequence. Calling
  \<^verbatim>\<open>self.ddgs.text\<close> only makes the sequence; the provider does its work, and fails, when
  the sequence is asked for an element. The values of the fields of a record are strings.
  The scheduling of the coroutine and of the executor is not part of the model: the calls
  are taken one after the other.
\<close>

subsection \<open>Exceptions\<close>

text \<open>
  \<^verbatim>\<open>KeyError\<close> is what \<^verbatim>\<open>i["href"]\<close> raises on a missing key. \<open>ProviderError\<close> is any
  instance of \<^verbatim>\<open>Exception\<close> the provider raises (what \<^verbatim>\<open>except Exception\<close> at line 89
  catches), with its class name and its \<^verbatim>\<open>str()\<close>. \<open>DuckDuckGoSearchException\<close> is the
  class of lines 17-19, with its message and the \<^verbatim>\<open>__cause__\<close> set by \<^verbatim>\<open>raise ... from e\<close>.
\<close>

datatype exn =
  KeyError string
| ProviderError string string
| DuckDuckGoSearchException string exn

text \<open>\<^verbatim>\<open>str(e)\<close>: a \<^verbatim>\<open>KeyError\<close> prints the \<^verbatim>\<open>repr\<close> of the key, which for the three
  keys of this module is the key between single quotes.\<close>

fun py_str :: "exn \<Rightarrow> string" where
  "py_str (KeyError k) = [CHR 0x27] @ k @ [CHR 0x27]"
| "py_str (ProviderError cls msg) = msg"
| "py_str (DuckDuckGoSearchException msg cause) = msg"

subsection \<open>Provider records and search results\<close>

text \<open>A provider record is a dict from field names to strings. A search result is the
  dict built at line 106; the order of its keys is the order of insertion, which the JSON
  serialisation follows, so it is an association list.\<close>

type_synonym provider_record = "string \<rightharpoonup> string"

type_synonym search_result = "(string \<times> string) list"

datatype pull = Yield provider_record | Raise exn

text \<open>Line 106: \<^verbatim>\<open>{"link": i["href"], "snippet": i["body"], "title": i["title"]}\<close>. The
  three subscripts are evaluated in this order and the first missing key raises.\<close>

definition result_of_record :: "provider_record \<Rightarrow> exn + search_result" where
  "result_of_record i =
     (case i ''href'' of
        None \<Rightarrow> Inl (KeyError ''href'')
      | Some h \<Rightarrow>
          (case i ''body'' of
             None \<Rightarrow> Inl (KeyError ''body'')
           | Some b \<Rightarrow>
               (case i ''title'' of
                  None \<Rightarrow> Inl (KeyError ''title'')
                | Some t \<Rightarrow> Inr [(''link'', h), (''snippet'', b), (''title'', t)])))"

text \<open>
  Lines 105-108: the list comprehension over \<^verbatim>\<open>zip(range(max_results), stream)\<close>. The
  first argument is what is left of the range. \<^verbatim>\<open>zip\<close> asks the range first, and stops
  without touching the stream when the range is exhausted; otherwise it asks the stream,
  and stops when the stream is exhausted. An exception of the stream or of the dict display
  leaves the comprehension at once: the list built so far is dropped. The second component
  counts the \<^verbatim>\<open>next\<close> calls made on the stream.
\<close>

fun zip_comprehension :: "nat \<Rightarrow> pull list \<Rightarrow> (exn + search_result list) \<times> nat" where
  "zip_comprehension 0 ps = (Inr [], 0)"
| "zip_comprehension (Suc n) [] = (Inr [], 1)"
| "zip_comprehension (Suc n) (Raise e # ps) = (Inl e, 1)"
| "zip_comprehension (Suc n) (Yield i # ps) =
     (case result_of_record i of
        Inl e \<Rightarrow> (Inl e, 1)
      | Inr r \<Rightarrow>
          (case zip_comprehension n ps of
             (Inl e, c) \<Rightarrow> (Inl e, Suc c)
           | (Inr rs, c) \<Rightarrow> (Inr (r # rs), Suc c)))"

text \<open>\<^verbatim>\<open>range(max_results)\<close> has \<open>max_results\<close> elements, none when \<open>max_results \<le> 0\<close>.\<close>

definition range_len :: "int \<Rightarrow> nat" where
  "range_len max_results = (if max_results \<le> 0 then 0 else nat max_results)"

definition search_from_ddgs :: "int \<Rightarrow> pull list \<Rightarrow> (exn + search_result list) \<times> nat" where
  "search_from_ddgs max_results stream = zip_comprehension (range_len max_results) stream"

subsection \<open>JSON: \<^verbatim>\<open>json.dumps(search_results, ensure_ascii=False)\<close>\<close>

text \<open>
  Line 101 serialises the list with the standard encoder, \<^verbatim>\<open>ensure_ascii=False\<close>. A
  string is a list of bytes, the UTF-8 form of the Python text: a character outside ASCII
  is a run of bytes from \<open>0x80\<close> up. With \<^verbatim>\<open>ensure_ascii=False\<close> the encoder escapes the
  backslash, the double quote and the control characters below \<open>0x20\<close> and nothing else;
  the separators are \<^verbatim>\<open>", "\<close> and \<^verbatim>\<open>": "\<close>.
\<close>

definition hex_digit :: "nat \<Rightarrow> char" where
  "hex_digit d = (if d < 10 then char_of (48 + d) else char_of (87 + d))"

definition escape_char :: "char \<Rightarrow> string" where
  "escape_char c =
     (if c = CHR 0x5C then [CHR 0x5C, CHR 0x5C]
      else if c = CHR 0x22 then [CHR 0x5C, CHR 0x22]
      else if c = CHR 0x08 then [CHR 0x5C, CHR ''b'']
      else if c = CHR 0x0C then [CHR 0x5C, CHR ''f'']
      else if c = CHR 0x0A then [CHR 0x5C, CHR ''n'']
      else if c = CHR 0x0D then [CHR 0x5C, CHR ''r'']
      else if c = CHR 0x09 then [CHR 0x5C, CHR ''t'']
      else if (of_char c :: nat) < 0x20 then
        [CHR 0x5C, CHR ''u'', CHR ''0'', CHR ''0'',
         hex_digit (of_char c div 16), hex_digit (of_char c mod 16)]
      else [c])"

definition encode_basestring :: "string \<Rightarrow> string" where
  "encode_basestring s = [CHR 0x22] @ concat (map escape_char s) @ [CHR 0x22]"

fun join :: "string \<Rightarrow> string list \<Rightarrow> string" where
  "join sep [] = []"
| "join sep [x] = x"
| "join sep (x # y # ys) = x @ sep @ join sep (y # ys)"

definition dumps_item :: "string \<times> string \<Rightarrow> string" where
  "dumps_item kv = encode_basestring (fst kv) @ '': '' @ encode_basestring (snd kv)"

definition dumps_dict :: "search_result \<Rightarrow> string" where
  "dumps_dict d = ''{'' @ join '', '' (map dumps_item d) @ ''}''"

definition json_dumps :: "search_result list \<Rightarrow> string" where
  "json_dumps rs = ''['' @ join '', '' (map dumps_dict rs) @ '']''"

subsection \<open>JSON: reading an array of objects of strings\<close>

text \<open>
  What \<^verbatim>\<open>json.loads\<close> does on the texts this module produces: arrays of objects whose
  values are strings, with white space allowed between the tokens and every escape of a
  JSON string (\<^verbatim>\<open>\uXXXX\<close> gives the UTF-8 bytes of the code point; surrogate pairs are
  not joined). A raw control character inside a string is refused, as the strict
  decoder does. An object becomes a dict: a repeated key keeps its first place and its
  last value. The two scanners that loop over the members of an object and the elements
  of an array are shown to terminate in the next subsection.
\<close>

definition hex_val :: "char \<Rightarrow> nat option" where
  "hex_val c =
     (let n = (of_char c :: nat) in
      if 48 \<le> n \<and> n \<le> 57 then Some (n - 48)
      else if 97 \<le> n \<and> n \<le> 102 then Some (n - 87)
      else if 65 \<le> n \<and> n \<le> 70 then Some (n - 55)
      else None)"

fun hex4 :: "string \<Rightarrow> nat option" where
  "hex4 [a, b, c, d] =
     (case (hex_val a, hex_val b, hex_val c, hex_val d) of
        (Some x, Some y, Some z, Some w) \<Rightarrow> Some (((x * 16 + y) * 16 + z) * 16 + w)
      | _ \<Rightarrow> None)"
| "hex4 _ = None"

definition utf8 :: "nat \<Rightarrow> string" where
  "utf8 n =
     (if n < 0x80 then [char_of n]
      else if n < 0x800 then [char_of (0xC0 + n div 64), char_of (0x80 + n mod 64)]
      else [char_of (0xE0 + n div 4096), char_of (0x80 + (n div 64) mod 64),
            char_of (0x80 + n mod 64)])"

definition unescape :: "char \<Rightarrow> char option" where
  "unescape e =
     (if e = CHR 0x22 then Some (CHR 0x22)
      else if e = CHR 0x5C then Some (CHR 0x5C)
      else if e = CHR ''/'' then Some (CHR ''/'')
      else if e = CHR ''b'' then Some (CHR 0x08)
      else if e = CHR ''f'' then Some (CHR 0x0C)
      else if e = CHR ''n'' then Some (CHR 0x0A)
      else if e = CHR ''r'' then Some (CHR 0x0D)
      else if e = CHR ''t'' then Some (CHR 0x09)
      else None)"

function scan_string :: "string \<Rightarrow> (string \<times> string) option" where
  "scan_string [] = None"
| "scan_string (c # cs) =
     (if c = CHR 0x22 then Some ([], cs)
      else if c = CHR 0x5C then
        (case cs of
           [] \<Rightarrow> None
         | e # es \<Rightarrow>
             if e = CHR ''u'' then
               (case hex4 (take 4 es) of
                  None \<Rightarrow> None
                | Some n \<Rightarrow>
                    (case scan_string (drop 4 es) of
                       None \<Rightarrow> None
                     | Some (v, r) \<Rightarrow> Some (utf8 n @ v, r)))
             else
               (case unescape e of
                  None \<Rightarrow> None
                | Some d \<Rightarrow>
                    (case scan_string es of
                       None \<Rightarrow> None
                     | Some (v, r) \<Rightarrow> Some (d # v, r))))
      else if (of_char c :: nat) < 0x20 then None
      else
        (case scan_string cs of
           None \<Rightarrow> None
         | Some (v, r) \<Rightarrow> Some (c # v, r)))"
  by pat_completeness auto
termination
  by (relation "measure length") auto

definition is_ws :: "char \<Rightarrow> bool" where
  "is_ws c = (c = CHR '' '' \<or> c = CHR 0x09 \<or> c = CHR 0x0A \<or> c = CHR 0x0D)"

definition skip_ws :: "string \<Rightarrow> string" where
  "skip_ws s = dropWhile is_ws s"

definition expect :: "char \<Rightarrow> string \<Rightarrow> string option" where
  "expect c s = (case skip_ws s of [] \<Rightarrow> None | x # r \<Rightarrow> if x = c then Some r else None)"

definition scan_pair :: "string \<Rightarrow> ((string \<times> string) \<times> string) option" where
  "scan_pair s =
     (case expect (CHR 0x22) s of
        None \<Rightarrow> None
      | Some s1 \<Rightarrow>
          (case scan_string s1 of
             None \<Rightarrow> None
           | Some (k, s2) \<Rightarrow>
               (case expect (CHR '':'') s2 of
                  None \<Rightarrow> None
                | Some s3 \<Rightarrow>
                    (case expect (CHR 0x22) s3 of
                       None \<Rightarrow> None
                     | Some s4 \<Rightarrow>
                         (case scan_string s4 of
                            None \<Rightarrow> None
                          | Some (v, s5) \<Rightarrow> Some ((k, v), s5))))))"

function scan_members :: "string \<Rightarrow> (search_result \<times> string) option" where
  "scan_members s =
     (case scan_pair s of
        None \<Rightarrow> None
      | Some (kv, r) \<Rightarrow>
          (case skip_ws r of
             [] \<Rightarrow> None
           | c # r' \<Rightarrow>
               if c = CHR '','' then
                 (case scan_members r' of
                    None \<Rightarrow> None
                  | Some (m, r'') \<Rightarrow> Some (kv # m, r''))
               else if c = CHR ''}'' then Some ([kv], r')
               else None))"
  by pat_completeness auto

definition dict_of_pairs :: "(string \<times> string) list \<Rightarrow> search_result" where
  "dict_of_pairs ps = foldl (\<lambda>d (k, v). AList.update k v d) [] ps"

definition scan_object :: "string \<Rightarrow> (search_result \<times> string) option" where
  "scan_object s =
     (case expect (CHR ''{'') s of
        None \<Rightarrow> None
      | Some s1 \<Rightarrow>
          (case expect (CHR ''}'') s1 of
             Some r \<Rightarrow> Some ([], r)
           | None \<Rightarrow>
               (case scan_members s1 of
                  None \<Rightarrow> None
                | Some (ps, r) \<Rightarrow> Some (dict_of_pairs ps, r))))"

function scan_elements :: "string \<Rightarrow> (search_result list \<times> string) option" where
  "scan_elements s =
     (case scan_object s of
        None \<Rightarrow> None
      | Some (d, r) \<Rightarrow>
          (case skip_ws r of
             [] \<Rightarrow> None
           | c # r' \<Rightarrow>
               if c = CHR '','' then
                 (case scan_elements r' of
                    None \<Rightarrow> None
                  | Some (ds, r'') \<Rightarrow> Some (d # ds, r''))
               else if c = CHR '']'' then Some ([d], r')
               else None))"
  by pat_completeness auto

definition scan_array :: "string \<Rightarrow> (search_result list \<times> string) option" where
  "scan_array s =
     (case expect (CHR ''['') s of
        None \<Rightarrow> None
      | Some s1 \<Rightarrow>
          (case expect (CHR '']'') s1 of
             Some r \<Rightarrow> Some ([], r)
           | None \<Rightarrow> scan_elements s1))"

definition json_loads :: "string \<Rightarrow> search_result list option" where
  "json_loads s =
     (case scan_array s of
        None \<Rightarrow> None
      | Some (rs, r) \<Rightarrow> if skip_ws r = [] then Some rs else None)"

subsection \<open>The world: provider, limiter, log, clock and cache\<close>

text \<open>
  What the calls do beyond returning a value is kept in a record that is passed along:
  how many times \<^verbatim>\<open>self.ddgs.text\<close> has been called, how many \<^verbatim>\<open>next\<close> calls its streams
  have received, how many times the limiter has been acquired, the lines printed, the
  waits of the retry policy, the clock in seconds and the cache.
  The provider is a parameter: \<open>P n q\<close> is the stream that the call number \<open>n\<close> of
  \<^verbatim>\<open>self.ddgs.text(q)\<close> returns (counting from \<open>0\<close>).
\<close>

datatype retval = Str string | Lst "search_result list"

type_synonym cache_key = "string \<times> int \<times> bool"

record world =
  provider_calls :: nat
  records_pulled :: nat
  limiter_acquired :: nat
  stdout :: "string list"
  slept :: "nat list"
  now :: nat
  cache :: "cache_key \<rightharpoonup> (retval \<times> nat)"

type_synonym provider = "nat \<Rightarrow> string \<Rightarrow> pull list"

text \<open>\<^verbatim>\<open>'Ratelimit' in str(e)\<close> (line 90): the substring test of Python, case-sensitive.\<close>

fun str_contains :: "string \<Rightarrow> string \<Rightarrow> bool" where
  "str_contains sub [] = (sub = [])"
| "str_contains sub (c # cs) = (prefix sub (c # cs) \<or> str_contains sub cs)"

text \<open>
  Lines 77-102, the body of \<^verbatim>\<open>run\<close> under its decorator: one attempt. The limiter is
  acquired (line 80), \<^verbatim>\<open>_search_from_ddgs\<close> runs in the executor (lines 82-88), an
  exception of it is caught and raised again as \<^verbatim>\<open>DuckDuckGoSearchException\<close> with one
  of two messages after one line is printed (lines 89-97), and the list is returned as
  it is or serialised (lines 100-102).
\<close>

definition run_body :: "provider \<Rightarrow> string \<Rightarrow> int \<Rightarrow> bool \<Rightarrow> world \<Rightarrow> (exn + retval) \<times> world" where
  "run_body P query max_results as_string w =
     (let w1 = w\<lparr>limiter_acquired := limiter_acquired w + 1\<rparr>;
          out = search_from_ddgs max_results (P (provider_calls w1) query);
          w2 = w1\<lparr>provider_calls := provider_calls w1 + 1,
                   records_pulled := records_pulled w1 + snd out\<rparr>
      in case fst out of
           Inl e \<Rightarrow>
             if str_contains ''Ratelimit'' (py_str e) then
               (Inl (DuckDuckGoSearchException ''Rate limit exceeded'' e),
                w2\<lparr>stdout := stdout w2 @
                  [''Rate limit hit for query: '' @ query @ ''. Retrying...'']\<rparr>)
             else
               (Inl (DuckDuckGoSearchException ''An error occurred during search'' e),
                w2\<lparr>stdout := stdout w2 @ [''An error occurred: '' @ py_str e]\<rparr>)
         | Inr search_results \<Rightarrow>
             if as_string then (Inr (Str (json_dumps search_results)), w2)
             else (Inr (Lst search_results), w2))"

subsection \<open>The retry decorator (lines 55-60)\<close>

text \<open>
  The retry library (tenacity) is not among the sources. Its decorator is taken with the
  arguments that lines 55-60 give it, each of its parts being one definition below.
\<close>

text \<open>Modelled from the spec: \<^verbatim>\<open>retry_if_exception_type(DuckDuckGoSearchException)\<close> of the
  retry library, missing from the sources. Only an exception of that class is retried.\<close>

definition retry_if_exception_type :: "exn \<Rightarrow> bool" where
  "retry_if_exception_type e =
     (case e of DuckDuckGoSearchException msg cause \<Rightarrow> True | _ \<Rightarrow> False)"

text \<open>Modelled from the spec: \<^verbatim>\<open>wait_exponential(multiplier=1, min=4, max=10)\<close> of the
  retry library, missing from the sources. The wait after the failed attempt number
  \<open>attempt_number\<close> (counted from \<open>1\<close>) is \<open>multiplier * 2 ^ (attempt_number - 1)\<close>, cut at
  \<open>max\<close> and raised to at least \<open>min\<close>.\<close>

definition wait_exponential :: "nat \<Rightarrow> nat" where
  "wait_exponential attempt_number = max (max 0 4) (min (1 * 2 ^ (attempt_number - 1)) 10)"

text \<open>Modelled from the spec: \<^verbatim>\<open>stop_after_attempt(5)\<close> of the retry library, missing
  from the sources. No attempt is made after the fifth.\<close>

definition stop_after_attempt :: "nat \<Rightarrow> bool" where
  "stop_after_attempt attempt_number = (attempt_number \<ge> 5)"

text \<open>The wait between two attempts: the clock moves on and the wait is recorded.\<close>

definition sleep :: "nat \<Rightarrow> world \<Rightarrow> world" where
  "sleep d w = w\<lparr>now := now w + d, slept := slept w @ [d]\<rparr>"

text \<open>Modelled from the spec: the loop of the retry decorator with \<^verbatim>\<open>reraise=True\<close>,
  missing from the sources. The function runs; a value is returned; an exception that is
  not to be retried is raised as it is; after the last attempt the exception of that
  attempt is raised as it is; otherwise the loop waits and runs the next attempt.\<close>

function retrying :: "(world \<Rightarrow> (exn + 'a) \<times> world) \<Rightarrow> nat \<Rightarrow> world \<Rightarrow> (exn + 'a) \<times> world" where
  "retrying fn attempt_number w =
     (case fn w of
        (Inr v, w1) \<Rightarrow> (Inr v, w1)
      | (Inl e, w1) \<Rightarrow>
          if \<not> retry_if_exception_type e then (Inl e, w1)
          else if stop_after_attempt attempt_number then (Inl e, w1)
          else retrying fn (attempt_number + 1) (sleep (wait_exponential attempt_number) w1))"
  by pat_completeness auto
termination
  by (relation "measure (\<lambda>(fn, attempt_number, w). 5 - attempt_number)")
     (auto simp: stop_after_attempt_def)

declare retrying.simps [simp del]

text \<open>\<^verbatim>\<open>run\<close> as its callers see it: the body under the decorator, from attempt \<open>1\<close>.\<close>

definition run :: "provider \<Rightarrow> string \<Rightarrow> int \<Rightarrow> bool \<Rightarrow> world \<Rightarrow> (exn + retval) \<times> world" where
  "run P query max_results as_string w = retrying (run_body P query max_results as_string) 1 w"

subsection \<open>The cache decorator (lines 110-118)\<close>

text \<open>
  The cache library (aiocache) is not among the sources. Its decorator is taken with the
  arguments of line 110, \<^verbatim>\<open>ttl=300\<close> and the memory cache; the key of a call is the triple
  of its arguments. The JSON serialiser of the cache gives back a value equal to the one
  stored, so the value is kept as it is.
\<close>

text \<open>Modelled from the spec: the lookup of the cache library, missing from the sources.
  An entry is found only before the time at which it expires.\<close>

definition cache_get :: "world \<Rightarrow> cache_key \<Rightarrow> retval option" where
  "cache_get w key =
     (case cache w key of
        None \<Rightarrow> None
      | Some (v, expiry) \<Rightarrow> if now w < expiry then Some v else None)"

text \<open>Modelled from the spec: the store of the cache library, missing from the sources.
  An entry expires \<open>300\<close> seconds after it is written.\<close>

definition cache_set :: "cache_key \<Rightarrow> retval \<Rightarrow> world \<Rightarrow> world" where
  "cache_set key v w = w\<lparr>cache := (cache w)(key \<mapsto> (v, now w + 300))\<rparr>"

text \<open>Lines 110-118. The body of \<^verbatim>\<open>cached_run\<close> calls \<^verbatim>\<open>run\<close> with its own arguments
  (line 118). Modelled from the spec: what the cache decorator, missing from the sources,
  does around it. On a hit the stored value is returned and the body does not run; on a
  miss the body runs, its value is stored and returned, and an exception of it goes
  through with nothing stored.\<close>

definition cached_run :: "provider \<Rightarrow> string \<Rightarrow> int \<Rightarrow> bool \<Rightarrow> world \<Rightarrow> (exn + retval) \<times> world" where
  "cached_run P query max_results as_string w =
     (case cache_get w (query, max_results, as_string) of
        Some v \<Rightarrow> (Inr v, w)
      | None \<Rightarrow>
          (case run P query max_results as_string w of
             (Inl e, w1) \<Rightarrow> (Inl e, w1)
           | (Inr v, w1) \<Rightarrow> (Inr v, cache_set (query, max_results, as_string) v w1)))"

subsection \<open>The words of the specification\<close>

text \<open>A provider record "containing at least the fields href, body and title", and the
  result the specification gives for it: \<^verbatim>\<open>{link: href, snippet: body, title: title}\<close>.\<close>

definition has_fields :: "provider_record \<Rightarrow> bool" where
  "has_fields i = (i ''href'' \<noteq> None \<and> i ''body'' \<noteq> None \<and> i ''title'' \<noteq> None)"

definition spec_search_result :: "provider_record \<Rightarrow> search_result" where
  "spec_search_result i =
     [(''link'', the (i ''href'')), (''snippet'', the (i ''body'')), (''title'', the (i ''title''))]"

text \<open>A world in which nothing has happened yet, for the concrete runs below.\<close>

definition world0 :: world where
  "world0 = \<lparr>provider_calls = 0, records_pulled = 0, limiter_acquired = 0, stdout = [],
     slept = [], now = 0, cache = Map.empty\<rparr>"

text \<open>The scenario of the specification: every call of the provider raises
  \<^verbatim>\<open>Exception("Ratelimit exceeded")\<close> at the first \<^verbatim>\<open>next\<close>.\<close>

definition always_ratelimited :: provider where
  "always_ratelimited n q = [Raise (ProviderError ''Exception'' ''Ratelimit exceeded'')]"

text \<open>Two complete records; a provider whose first stream breaks after one record and
  whose later streams are whole; and a provider whose only record has no title.\<close>

definition record1 :: provider_record where
  "record1 = [''href'' \<mapsto> ''https://a.example'', ''body'' \<mapsto> ''first'', ''title'' \<mapsto> ''A'']"

definition record2 :: provider_record where
  "record2 = [''href'' \<mapsto> ''https://b.example'', ''body'' \<mapsto> ''second'', ''title'' \<mapsto> ''B'']"

definition flaky :: provider where
  "flaky n q =
     (if n = 0 then [Yield record1, Raise (ProviderError ''ConnectionError'' ''reset''), Yield record2]
      else [Yield record1, Yield record2])"

definition untitled :: provider where
  "untitled n q = [Yield [''href'' \<mapsto> ''https://a.example'', ''body'' \<mapsto> ''first'']]"

text \<open>A provider whose record has a snippet with a character outside ASCII (the two
  bytes of U+00E9) and a double quote.\<close>

definition accented :: provider where
  "accented n q =
     [Yield [''href'' \<mapsto> ''https://c.example'',
             ''body'' \<mapsto> [CHR ''c'', CHR ''a'', CHR ''f'', CHR 0xC3, CHR 0xA9, CHR 0x22],
             ''title'' \<mapsto> ''C'']]"

subsection \<open>Termination of the scanners\<close>

text \<open>Every scanner that succeeds returns a rest that is shorter than its input.\<close>

lemma scan_string_shorter: "scan_string s = Some (v, r) \<Longrightarrow> length r < length s"
  by (induction s arbitrary: v r rule: scan_string.induct)
     (fastforce split: if_splits list.splits option.splits)+

lemma skip_ws_le: "length (skip_ws s) \<le> length s"
  by (simp add: skip_ws_def length_dropWhile_le)

lemma expect_shorter: "expect c s = Some r \<Longrightarrow> length r < length s"
  using skip_ws_le [of s] by (auto simp: expect_def split: list.splits if_splits)

lemma scan_pair_shorter: "scan_pair s = Some (kv, r) \<Longrightarrow> length r < length s"
  by (fastforce simp: scan_pair_def split: option.splits
      dest!: expect_shorter scan_string_shorter)

termination scan_members
proof (relation "measure length")
  fix s :: string and x2 kv r xs c r'
  assume "scan_pair s = Some x2" "(kv, r) = x2" "skip_ws r = c # r'"
  then have "length r < length s" "length (c # r') \<le> length r"
    using scan_pair_shorter [of s kv r] skip_ws_le [of r] by auto
  then show "(r', s) \<in> measure length" by simp
qed simp

declare scan_members.simps [simp del]

lemma scan_members_shorter: "scan_members s = Some (m, r) \<Longrightarrow> length r < length s"
proof (induction s arbitrary: m r rule: scan_members.induct)
  case (1 s)
  from "1.prems" obtain kv r1 c r2 where
    p: "scan_pair s = Some (kv, r1)" and w: "skip_ws r1 = c # r2"
    by (subst (asm) scan_members.simps) (auto split: option.splits list.splits)
  have l: "length r2 < length s"
    using scan_pair_shorter [OF p] skip_ws_le [of r1] w by simp
  show ?case
  proof (cases "c = CHR '',''")
    case True
    with "1.prems" p w obtain m' where "scan_members r2 = Some (m', r)"
      by (subst (asm) scan_members.simps) (auto split: option.splits)
    from "1.IH" [OF p refl w True this] l show ?thesis by simp
  next
    case False
    with "1.prems" p w have "r = r2"
      by (subst (asm) scan_members.simps) (auto split: if_splits)
    with l show ?thesis by simp
  qed
qed

lemma scan_object_shorter:
  assumes "scan_object s = Some (d, r)"
  shows "length r < length s"
proof -
  from assms obtain s1 where e: "expect (CHR ''{'') s = Some s1"
    by (auto simp: scan_object_def split: option.splits)
  have "length r \<le> length s1"
  proof (cases "expect (CHR ''}'') s1")
    case None
    with assms e obtain ps where "scan_members s1 = Some (ps, r)"
      by (auto simp: scan_object_def split: option.splits)
    then show ?thesis using scan_members_shorter by fastforce
  next
    case (Some r')
    with assms e have "r' = r" by (simp add: scan_object_def)
    with Some show ?thesis using expect_shorter by fastforce
  qed
  with expect_shorter [OF e] show ?thesis by simp
qed

termination scan_elements
proof (relation "measure length")
  fix s :: string and x2 d r c r'
  assume "scan_object s = Some x2" "(d, r) = x2" "skip_ws r = c # r'"
  then have "length r < length s" "length (c # r') \<le> length r"
    using scan_object_shorter [of s d r] skip_ws_le [of r] by auto
  then show "(r', s) \<in> measure length" by simp
qed simp

declare scan_elements.simps [simp del]

subsection \<open>Reading back what the encoder writes\<close>

lemma hex_val_hex_digit: "d < 16 \<Longrightarrow> hex_val (hex_digit d) = Some d"
  by (auto simp: hex_val_def hex_digit_def Let_def)

lemma hex4_control:
  assumes "n < 32"
  shows "hex4 [CHR ''0'', CHR ''0'', hex_digit (n div 16), hex_digit (n mod 16)] = Some n"
proof -
  have "n div 16 < 16" "n mod 16 < 16" using assms by auto
  then have "hex_val (hex_digit (n div 16)) = Some (n div 16)"
    "hex_val (hex_digit (n mod 16)) = Some (n mod 16)"
    by (simp_all add: hex_val_hex_digit)
  moreover have "hex_val (CHR ''0'') = Some 0" by (simp add: hex_val_def)
  ultimately show ?thesis by simp
qed

lemma scan_escape_char:
  assumes "scan_string rest = Some (v, r)"
  shows "scan_string (escape_char c @ rest) = Some (c # v, r)"
proof -
  consider (named) "c \<in> {CHR 0x5C, CHR 0x22, CHR 0x08, CHR 0x0C, CHR 0x0A, CHR 0x0D, CHR 0x09}"
    | (ctl) "c \<notin> {CHR 0x5C, CHR 0x22, CHR 0x08, CHR 0x0C, CHR 0x0A, CHR 0x0D, CHR 0x09}"
        "(of_char c :: nat) < 0x20"
    | (plain) "c \<notin> {CHR 0x5C, CHR 0x22, CHR 0x08, CHR 0x0C, CHR 0x0A, CHR 0x0D, CHR 0x09}"
        "\<not> (of_char c :: nat) < 0x20"
    by blast
  then show ?thesis
  proof cases
    case named
    then show ?thesis using assms by (auto simp: escape_char_def unescape_def)
  next
    case ctl
    have "utf8 (of_char c) = [c]" using ctl(2) by (simp add: utf8_def)
    with ctl assms hex4_control [OF ctl(2)] show ?thesis
      by (simp add: escape_char_def)
  next
    case plain
    then show ?thesis using assms by (simp add: escape_char_def)
  qed
qed

lemma scan_string_escaped:
  "scan_string (concat (map escape_char s) @ CHR 0x22 # rest) = Some (s, rest)"
  by (induction s) (simp_all add: scan_escape_char)

lemma scan_encode_basestring:
  "scan_string (tl (encode_basestring s) @ rest) = Some (s, rest)"
  by (simp add: encode_basestring_def scan_string_escaped)

lemma expect_here: "\<not> is_ws c \<Longrightarrow> expect c (c # r) = Some r"
  by (simp add: expect_def skip_ws_def)

lemma expect_space: "expect c (CHR '' '' # r) = expect c r"
  by (simp add: expect_def skip_ws_def is_ws_def)

lemma expect_other: "\<not> is_ws x \<Longrightarrow> x \<noteq> c \<Longrightarrow> expect c (x # r) = None"
  by (simp add: expect_def skip_ws_def)

lemma encode_basestring_Cons:
  "encode_basestring s = CHR 0x22 # concat (map escape_char s) @ [CHR 0x22]"
  by (simp add: encode_basestring_def)

lemma scan_pair_dumps_item:
  "scan_pair (dumps_item kv @ rest) = Some (kv, rest)"
proof -
  have a: "dumps_item kv @ rest =
    CHR 0x22 # concat (map escape_char (fst kv)) @ CHR 0x22 # CHR '':'' # CHR '' '' #
      CHR 0x22 # concat (map escape_char (snd kv)) @ CHR 0x22 # rest"
    by (simp add: dumps_item_def encode_basestring_Cons)
  show ?thesis
    by (simp only: a scan_pair_def)
       (simp add: expect_here expect_space is_ws_def scan_string_escaped)
qed

lemma scan_members_join:
  "d \<noteq> [] \<Longrightarrow>
   scan_members (join '', '' (map dumps_item d) @ CHR ''}'' # rest) = Some (d, rest)"
proof (induction d rule: induct_list012)
  case 1
  then show ?case by simp
next
  case (2 x)
  show ?case
    by (subst scan_members.simps) (simp add: scan_pair_dumps_item skip_ws_def is_ws_def)
next
  case (3 x y zs)
  then have ih: "scan_members (join '', '' (map dumps_item (y # zs)) @ CHR ''}'' # rest)
     = Some (y # zs, rest)" by simp
  have sp: "scan_members (CHR '' '' # t) = scan_members t" for t
    by (subst scan_members.simps, subst (2) scan_members.simps)
       (simp add: scan_pair_def expect_space)
  show ?case
    by (subst scan_members.simps)
       (simp add: scan_pair_dumps_item skip_ws_def is_ws_def sp ih [simplified])
qed

lemma update_fresh: "k \<notin> fst ` set al \<Longrightarrow> AList.update k v al = al @ [(k, v)]"
  by (induction al) auto

lemma foldl_update_distinct:
  "distinct (map fst (acc @ ps)) \<Longrightarrow>
   foldl (\<lambda>d (k, v). AList.update k v d) acc ps = acc @ ps"
proof (induction ps arbitrary: acc)
  case Nil
  then show ?case by simp
next
  case (Cons p ps)
  obtain k v where p: "p = (k, v)" by (cases p)
  from Cons.prems p have "k \<notin> fst ` set acc" by auto
  then have u: "AList.update k v acc = acc @ [(k, v)]" by (rule update_fresh)
  from Cons.prems p have "distinct (map fst ((acc @ [(k, v)]) @ ps))" by simp
  from Cons.IH [OF this] show ?case by (simp add: p u)
qed

lemma dict_of_pairs_distinct: "distinct (map fst ps) \<Longrightarrow> dict_of_pairs ps = ps"
  using foldl_update_distinct [of "[]" ps] by (simp add: dict_of_pairs_def)

lemma scan_object_dumps_dict:
  assumes "distinct (map fst d)"
  shows "scan_object (dumps_dict d @ rest) = Some (d, rest)"
proof (cases d)
  case Nil
  then show ?thesis
    by (simp add: scan_object_def dumps_dict_def expect_here is_ws_def)
next
  case (Cons kv d')
  have q: "expect (CHR ''}'') (join '', '' (map dumps_item d) @ CHR ''}'' # rest) = None"
  proof -
    obtain t where "join '', '' (map dumps_item d) @ CHR ''}'' # rest = CHR 0x22 # t"
      using Cons by (cases d') (simp_all add: dumps_item_def encode_basestring_Cons)
    then show ?thesis by (simp add: expect_other is_ws_def)
  qed
  have "d \<noteq> []" using Cons by simp
  from scan_members_join [OF this] q assms show ?thesis
    by (simp add: scan_object_def dumps_dict_def expect_here is_ws_def dict_of_pairs_distinct)
qed

lemma scan_elements_join:
  "rs \<noteq> [] \<Longrightarrow> \<forall>d\<in>set rs. distinct (map fst d) \<Longrightarrow>
   scan_elements (join '', '' (map dumps_dict rs) @ CHR '']'' # rest) = Some (rs, rest)"
proof (induction rs rule: induct_list012)
  case 1
  then show ?case by simp
next
  case (2 x)
  then show ?case
    by (subst scan_elements.simps) (simp add: scan_object_dumps_dict skip_ws_def is_ws_def)
next
  case (3 x y zs)
  then have ih: "scan_elements (join '', '' (map dumps_dict (y # zs)) @ CHR '']'' # rest)
     = Some (y # zs, rest)" by simp
  have sp: "scan_elements (CHR '' '' # t) = scan_elements t" for t
    by (subst scan_elements.simps, subst (2) scan_elements.simps)
       (simp add: scan_object_def expect_space)
  from "3.prems" have dx: "distinct (map fst x)" by simp
  show ?case
    by (subst scan_elements.simps)
       (simp add: scan_object_dumps_dict [OF dx] skip_ws_def is_ws_def sp ih [simplified])
qed

lemma json_loads_dumps:
  assumes "\<forall>d\<in>set rs. distinct (map fst d)"
  shows "json_loads (json_dumps rs) = Some rs"
proof (cases rs)
  case Nil
  then show ?thesis
    by (simp add: json_loads_def json_dumps_def scan_array_def expect_here is_ws_def skip_ws_def)
next
  case (Cons r rs')
  have q: "expect (CHR '']'') (join '', '' (map dumps_dict rs) @ '']'') = None"
  proof -
    obtain t where "join '', '' (map dumps_dict rs) @ '']'' = CHR ''{'' # t"
      using Cons by (cases rs') (simp_all add: dumps_dict_def)
    then show ?thesis by (simp add: expect_other is_ws_def)
  qed
  have "rs \<noteq> []" using Cons by simp
  from scan_elements_join [OF this assms, of "[]"] q show ?thesis
    by (simp add: json_loads_def json_dumps_def scan_array_def expect_here is_ws_def skip_ws_def)
qed

section \<open>The search invocation\<close>

lemma result_of_record_has_fields:
  "has_fields i \<Longrightarrow> result_of_record i = Inr (spec_search_result i)"
  by (auto simp: has_fields_def result_of_record_def spec_search_result_def)

lemma fst_zip_comprehension_Yield:
  "fst (zip_comprehension (Suc n) (Yield i # ps)) =
     (case result_of_record i of
        Inl e \<Rightarrow> Inl e
      | Inr r \<Rightarrow>
          (case fst (zip_comprehension n ps) of
             Inl e \<Rightarrow> Inl e
           | Inr rs \<Rightarrow> Inr (r # rs)))"
  by (simp split: sum.splits prod.splits)

lemma zip_comprehension_records:
  "\<forall>i\<in>set (take n recs). has_fields i \<Longrightarrow> n \<le> length recs \<or> rest = [] \<Longrightarrow>
   fst (zip_comprehension n (map Yield recs @ rest)) = Inr (map spec_search_result (take n recs))"
proof (induction n arbitrary: recs)
  case 0
  then show ?case by simp
next
  case (Suc n)
  show ?case
  proof (cases recs)
    case Nil
    with Suc.prems show ?thesis by simp
  next
    case (Cons i recs')
    with Suc.prems have "has_fields i" "\<forall>i\<in>set (take n recs'). has_fields i"
      "n \<le> length recs' \<or> rest = []" by auto
    with Suc.IH [of recs'] Cons show ?thesis
      by (simp add: fst_zip_comprehension_Yield result_of_record_has_fields
          del: zip_comprehension.simps)
  qed
qed

text \<open>
  Claim C1. For every \<open>max_results = k \<ge> 0\<close> and a provider whose stream yields the
  records \<open>recs\<close> (followed by anything once \<open>k\<close> records have been yielded, by nothing
  otherwise), the first \<open>k\<close> of them having the three fields: the search invocation
  returns a list of length at most \<open>k\<close>, of the length of \<open>recs\<close> when that is less than
  \<open>k\<close>, whose elements are the first \<open>k\<close> records in the provider's order, each mapped to
  \<^verbatim>\<open>{link: href, snippet: body, title: title}\<close>.
\<close>

theorem search_from_ddgs_first_k:
  assumes "0 \<le> k"
    and "\<forall>i\<in>set (take (nat k) recs). has_fields i"
    and "nat k \<le> length recs \<or> rest = []"
  shows "\<exists>rs. fst (search_from_ddgs k (map Yield recs @ rest)) = Inr rs
           \<and> int (length rs) \<le> k
           \<and> (int (length recs) < k \<longrightarrow> length rs = length recs)
           \<and> rs = map spec_search_result (take (nat k) recs)"
proof -
  have r: "range_len k = nat k" by (simp add: range_len_def)
  have "fst (search_from_ddgs k (map Yield recs @ rest))
      = Inr (map spec_search_result (take (nat k) recs))"
    unfolding search_from_ddgs_def r
    using assms(2,3) by (rule zip_comprehension_records)
  moreover have "int (length (map spec_search_result (take (nat k) recs))) \<le> k"
    using assms(1) by simp
  moreover have "int (length recs) < k \<longrightarrow>
      length (map spec_search_result (take (nat k) recs)) = length recs"
    by auto
  ultimately show ?thesis by blast
qed

theorem search_from_ddgs_first_k_witness:
  "fst (search_from_ddgs 2
     (map Yield
        [[''href'' \<mapsto> ''u1'', ''body'' \<mapsto> ''b1'', ''title'' \<mapsto> ''t1''],
         [''title'' \<mapsto> ''t2'', ''href'' \<mapsto> ''u2'', ''body'' \<mapsto> ''b2'', ''extra'' \<mapsto> ''x''],
         [''href'' \<mapsto> ''u3'']]
      @ [Raise (ProviderError ''TimeoutError'' ''timed out'')]))
   = Inr [[(''link'', ''u1''), (''snippet'', ''b1''), (''title'', ''t1'')],
          [(''link'', ''u2''), (''snippet'', ''b2''), (''title'', ''t2'')]]"
proof -
  let ?recs = "[[''href'' \<mapsto> ''u1'', ''body'' \<mapsto> ''b1'', ''title'' \<mapsto> ''t1''],
         [''title'' \<mapsto> ''t2'', ''href'' \<mapsto> ''u2'', ''body'' \<mapsto> ''b2'', ''extra'' \<mapsto> ''x''],
         [''href'' \<mapsto> ''u3'']] :: provider_record list"
  have h1: "(0::int) \<le> 2" by simp
  have h2: "\<forall>i\<in>set (take (nat 2) ?recs). has_fields i"
    by (simp add: has_fields_def)
  have h3: "nat 2 \<le> length ?recs \<or> [Raise (ProviderError ''TimeoutError'' ''timed out'')] = []"
    by simp
  from search_from_ddgs_first_k [OF h1 h2 h3] show ?thesis
    by (simp add: spec_search_result_def)
qed

section \<open>One attempt and the retry loop\<close>

lemma retrying_Inr: "fn w = (Inr v, w1) \<Longrightarrow> retrying fn n w = (Inr v, w1)"
  by (subst retrying.simps) simp

lemma retrying_no_retry:
  "fn w = (Inl e, w1) \<Longrightarrow> \<not> retry_if_exception_type e \<Longrightarrow> retrying fn n w = (Inl e, w1)"
  by (subst retrying.simps) simp

lemma retrying_stop:
  "fn w = (Inl e, w1) \<Longrightarrow> stop_after_attempt n \<Longrightarrow> retrying fn n w = (Inl e, w1)"
  by (subst retrying.simps) simp

lemma retrying_again:
  "fn w = (Inl e, w1) \<Longrightarrow> retry_if_exception_type e \<Longrightarrow> \<not> stop_after_attempt n \<Longrightarrow>
   retrying fn n w = retrying fn (n + 1) (sleep (wait_exponential n) w1)"
  by (subst retrying.simps) simp

lemma run_body_Inl:
  assumes "fst (search_from_ddgs k (P (provider_calls w) q)) = Inl e"
  shows "run_body P q k a w =
    (Inl (DuckDuckGoSearchException
       (if str_contains ''Ratelimit'' (py_str e) then ''Rate limit exceeded''
        else ''An error occurred during search'') e),
     w\<lparr>limiter_acquired := limiter_acquired w + 1,
       provider_calls := provider_calls w + 1,
       records_pulled := records_pulled w + snd (search_from_ddgs k (P (provider_calls w) q)),
       stdout := stdout w @
         [if str_contains ''Ratelimit'' (py_str e)
          then ''Rate limit hit for query: '' @ q @ ''. Retrying...''
          else ''An error occurred: '' @ py_str e]\<rparr>)"
  using assms by (simp add: run_body_def Let_def)

lemma run_body_Inr:
  assumes "fst (search_from_ddgs k (P (provider_calls w) q)) = Inr rs"
  shows "run_body P q k a w =
    (Inr (if a then Str (json_dumps rs) else Lst rs),
     w\<lparr>limiter_acquired := limiter_acquired w + 1,
       provider_calls := provider_calls w + 1,
       records_pulled := records_pulled w + snd (search_from_ddgs k (P (provider_calls w) q))\<rparr>)"
  using assms by (simp add: run_body_def Let_def)

lemma run_body_raises_search_exception:
  "fst (run_body P q k a w) = Inl x \<Longrightarrow> retry_if_exception_type x"
  by (cases "fst (search_from_ddgs k (P (provider_calls w) q))")
     (auto simp: run_body_Inl run_body_Inr retry_if_exception_type_def)



lemma retrying_result: "\<exists>w0. fn w0 = retrying fn n w"
proof (induction "5 - n" arbitrary: n w)
  case 0
  then have s: "stop_after_attempt n" by (simp add: stop_after_attempt_def)
  obtain r w1 where f: "fn w = (r, w1)" by (cases "fn w")
  show ?case
  proof (cases r)
    case (Inl e)
    with f s have "retrying fn n w = fn w" by (simp add: retrying_stop)
    then show ?thesis by metis
  next
    case (Inr v)
    with f have "retrying fn n w = fn w" by (simp add: retrying_Inr)
    then show ?thesis by metis
  qed
next
  case (Suc m)
  then have s: "\<not> stop_after_attempt n" and m: "m = 5 - (n + 1)"
    by (simp_all add: stop_after_attempt_def)
  obtain r w1 where f: "fn w = (r, w1)" by (cases "fn w")
  show ?case
  proof (cases r)
    case (Inl e)
    show ?thesis
    proof (cases "retry_if_exception_type e")
      case True
      with f Inl s have "retrying fn n w =
          retrying fn (n + 1) (sleep (wait_exponential n) w1)"
        by (simp add: retrying_again)
      with Suc.hyps(1) [OF m] show ?thesis by simp
    next
      case False
      with f Inl have "retrying fn n w = fn w" by (simp add: retrying_no_retry)
      then show ?thesis by metis
    qed
  next
    case (Inr v)
    with f have "retrying fn n w = fn w" by (simp add: retrying_Inr)
    then show ?thesis by metis
  qed
qed

lemma run_result: "\<exists>w0. run_body P q k a w0 = run P q k a w"
  unfolding run_def by (rule retrying_result)

lemma run_body_Inl_iff:
  "fst (run_body P q k a w) = Inl x \<Longrightarrow>
   \<exists>e. fst (search_from_ddgs k (P (provider_calls w) q)) = Inl e
     \<and> x = DuckDuckGoSearchException
          (if str_contains ''Ratelimit'' (py_str e) then ''Rate limit exceeded''
           else ''An error occurred during search'') e
     \<and> stdout (snd (run_body P q k a w)) = stdout w @
          [if str_contains ''Ratelimit'' (py_str e)
           then ''Rate limit hit for query: '' @ q @ ''. Retrying...''
           else ''An error occurred: '' @ py_str e]"
  by (cases "fst (search_from_ddgs k (P (provider_calls w) q))")
     (auto simp: run_body_Inl run_body_Inr)

lemma run_body_Inr_iff:
  "fst (run_body P q k a w) = Inr v \<Longrightarrow>
   \<exists>rs. fst (search_from_ddgs k (P (provider_calls w) q)) = Inr rs
     \<and> v = (if a then Str (json_dumps rs) else Lst rs)"
  by (cases "fst (search_from_ddgs k (P (provider_calls w) q))")
     (auto simp: run_body_Inl run_body_Inr)

lemma retrying_all_fail:
  assumes "1 \<le> n" "n \<le> 5"
    and "\<forall>i\<le>5 - n. isl (fst (search_from_ddgs k (P (provider_calls w + i) q)))"
  shows "provider_calls (snd (retrying (run_body P q k a) n w)) = provider_calls w + (6 - n)
       \<and> limiter_acquired (snd (retrying (run_body P q k a) n w)) = limiter_acquired w + (6 - n)
       \<and> slept (snd (retrying (run_body P q k a) n w)) = slept w @ map wait_exponential [n..<5]
       \<and> (\<exists>e. fst (search_from_ddgs k (P (provider_calls w + (5 - n)) q)) = Inl e
            \<and> fst (retrying (run_body P q k a) n w) =
                Inl (DuckDuckGoSearchException
                  (if str_contains ''Ratelimit'' (py_str e) then ''Rate limit exceeded''
                   else ''An error occurred during search'') e))"
  using assms
proof (induction "5 - n" arbitrary: n w)
  case 0
  then have n: "n = 5" by simp
  from "0.prems"(3) obtain e where
    e: "fst (search_from_ddgs k (P (provider_calls w) q)) = Inl e"
    by (auto simp: isl_def dest: spec [of _ 0])
  have s: "stop_after_attempt n" using n by (simp add: stop_after_attempt_def)
  define x where "x = DuckDuckGoSearchException
       (if str_contains ''Ratelimit'' (py_str e) then ''Rate limit exceeded''
        else ''An error occurred during search'') e"
  define w1 where "w1 = snd (run_body P q k a w)"
  have b: "run_body P q k a w = (Inl x, w1)"
    by (simp add: w1_def x_def run_body_Inl [where P = P and w = w, OF e])
  have "retrying (run_body P q k a) n w = (Inl x, w1)"
    using b s by (rule retrying_stop)
  moreover have "provider_calls w1 = provider_calls w + 1"
    "limiter_acquired w1 = limiter_acquired w + 1" "slept w1 = slept w"
    by (simp_all add: w1_def run_body_Inl [where P = P and w = w, OF e])
  ultimately show ?case
    using e n by (simp add: x_def)
next
  case (Suc m)
  then have n: "n < 5" and m: "m = 5 - (n + 1)" by simp_all
  from Suc.prems(3) obtain e where
    e: "fst (search_from_ddgs k (P (provider_calls w) q)) = Inl e"
    by (auto simp: isl_def dest: spec [of _ 0])
  have s: "\<not> stop_after_attempt n" using n by (simp add: stop_after_attempt_def)
  define x where "x = DuckDuckGoSearchException
       (if str_contains ''Ratelimit'' (py_str e) then ''Rate limit exceeded''
        else ''An error occurred during search'') e"
  define w1 where "w1 = snd (run_body P q k a w)"
  have b: "run_body P q k a w = (Inl x, w1)"
    by (simp add: w1_def x_def run_body_Inl [where P = P and w = w, OF e])
  have r: "retry_if_exception_type x" by (simp add: x_def retry_if_exception_type_def)
  define w2 where "w2 = sleep (wait_exponential n) w1"
  have step: "retrying (run_body P q k a) n w = retrying (run_body P q k a) (n + 1) w2"
    unfolding w2_def using b r s by (rule retrying_again)
  have w2: "provider_calls w2 = provider_calls w + 1" "limiter_acquired w2 = limiter_acquired w + 1"
    "slept w2 = slept w @ [wait_exponential n]"
    by (simp_all add: w2_def w1_def sleep_def run_body_Inl [where P = P and w = w, OF e])
  have "\<forall>i\<le>5 - (n + 1). isl (fst (search_from_ddgs k (P (provider_calls w2 + i) q)))"
  proof (intro allI impI)
    fix i assume "i \<le> 5 - (n + 1)"
    then have "Suc i \<le> 5 - n" using n by simp
    with Suc.prems(3) have "isl (fst (search_from_ddgs k (P (provider_calls w + Suc i) q)))"
      by blast
    then show "isl (fst (search_from_ddgs k (P (provider_calls w2 + i) q)))"
      by (simp add: w2)
  qed
  from Suc.hyps(1) [OF m _ _ this] n
  have ih: "provider_calls (snd (retrying (run_body P q k a) (n + 1) w2)) = provider_calls w2 + (6 - (n + 1))
       \<and> limiter_acquired (snd (retrying (run_body P q k a) (n + 1) w2)) = limiter_acquired w2 + (6 - (n + 1))
       \<and> slept (snd (retrying (run_body P q k a) (n + 1) w2)) = slept w2 @ map wait_exponential [n + 1..<5]
       \<and> (\<exists>e. fst (search_from_ddgs k (P (provider_calls w2 + (5 - (n + 1))) q)) = Inl e
            \<and> fst (retrying (run_body P q k a) (n + 1) w2) =
                Inl (DuckDuckGoSearchException
                  (if str_contains ''Ratelimit'' (py_str e) then ''Rate limit exceeded''
                   else ''An error occurred during search'') e))"
    by simp
  have u: "[n..<5] = n # [n + 1..<5]" using n by (simp add: upt_conv_Cons)
  have c: "provider_calls w2 + (5 - (n + 1)) = provider_calls w + (5 - n)" using n w2 by simp
  have g1: "provider_calls (snd (retrying (run_body P q k a) (n + 1) w2)) = provider_calls w + (6 - n)"
    using ih w2 n by simp
  have g2: "limiter_acquired (snd (retrying (run_body P q k a) (n + 1) w2)) = limiter_acquired w + (6 - n)"
    using ih w2 n by simp
  have g3: "slept (snd (retrying (run_body P q k a) (n + 1) w2)) = slept w @ map wait_exponential [n..<5]"
    using ih w2 u by simp
  have g4: "\<exists>e. fst (search_from_ddgs k (P (provider_calls w + (5 - n)) q)) = Inl e
            \<and> fst (retrying (run_body P q k a) (n + 1) w2) =
                Inl (DuckDuckGoSearchException
                  (if str_contains ''Ratelimit'' (py_str e) then ''Rate limit exceeded''
                   else ''An error occurred during search'') e)"
    using ih unfolding c by blast
  show ?case
    unfolding step using g1 g2 g3 g4 by blast
qed

lemma always_ratelimited_run:
  "run always_ratelimited ''rust'' 3 True world0 =
     (Inl (DuckDuckGoSearchException ''Rate limit exceeded''
        (ProviderError ''Exception'' ''Ratelimit exceeded'')),
      world0\<lparr>provider_calls := 5, records_pulled := 5, limiter_acquired := 5,
        stdout := replicate 5 ''Rate limit hit for query: rust. Retrying...'',
        slept := [4, 4, 4, 8], now := 20\<rparr>)"
  by (simp add: run_def retrying.simps run_body_def always_ratelimited_def world0_def
      search_from_ddgs_def range_len_def numeral_3_eq_3 Let_def retry_if_exception_type_def
      stop_after_attempt_def sleep_def wait_exponential_def eval_nat_numeral)

lemma wait_exponential_mono: "n \<le> m \<Longrightarrow> wait_exponential n \<le> wait_exponential m"
proof -
  assume "n \<le> m"
  then have "(1::nat) * 2 ^ (n - 1) \<le> 1 * 2 ^ (m - 1)" by (simp add: power_increasing)
  then have "min (1 * 2 ^ (n - 1)) (10::nat) \<le> min (1 * 2 ^ (m - 1)) 10"
    by (rule min.mono) simp
  then show ?thesis
    unfolding wait_exponential_def by (rule max.mono [OF order_refl])
qed

text \<open>
  Claim C6. Every failure raised during the rate-limited provider invocation is classified
  as \<^verbatim>\<open>DuckDuckGoSearchException\<close> (the transient search error) before it propagates: when
  \<^verbatim>\<open>_search_from_ddgs\<close> raises \<open>e\<close>, the attempt raises that class, with the message
  \<^verbatim>\<open>Rate limit exceeded\<close> when \<^verbatim>\<open>str(e)\<close> contains \<^verbatim>\<open>Ratelimit\<close> (case-sensitive) and with
  \<^verbatim>\<open>An error occurred during search\<close> otherwise, after a line is printed (the original
  message in the second case); the error raised is of the class that is retried, has \<open>e\<close>
  as its cause and is never \<open>e\<close> itself.
\<close>

theorem run_body_classifies_failure:
  assumes "fst (search_from_ddgs max_results (P (provider_calls w) query)) = Inl e"
  shows "fst (run_body P query max_results as_string w) =
           Inl (DuckDuckGoSearchException
             (if str_contains ''Ratelimit'' (py_str e) then ''Rate limit exceeded''
              else ''An error occurred during search'') e)
       \<and> retry_if_exception_type
           (DuckDuckGoSearchException
             (if str_contains ''Ratelimit'' (py_str e) then ''Rate limit exceeded''
              else ''An error occurred during search'') e)
       \<and> stdout (snd (run_body P query max_results as_string w)) =
            stdout w @
              [if str_contains ''Ratelimit'' (py_str e)
               then ''Rate limit hit for query: '' @ query @ ''. Retrying...''
               else ''An error occurred: '' @ py_str e]
       \<and> (\<forall>x. fst (run_body P query max_results as_string w) = Inl x \<longrightarrow>
            (\<exists>m. x = DuckDuckGoSearchException m e) \<and> x \<noteq> e)"
  using assms by (auto simp: run_body_Inl retry_if_exception_type_def)

theorem run_body_classifies_failure_witness:
  "fst (run_body (\<lambda>n q. [Raise (ProviderError ''TimeoutError'' ''ratelimit: timed out'')])
      ''rust'' 3 True world0)
     = Inl (DuckDuckGoSearchException ''An error occurred during search''
         (ProviderError ''TimeoutError'' ''ratelimit: timed out''))
   \<and> stdout (snd (run_body (\<lambda>n q. [Raise (ProviderError ''TimeoutError'' ''ratelimit: timed out'')])
      ''rust'' 3 True world0))
     = [''An error occurred: ratelimit: timed out'']"
proof -
  let ?P = "\<lambda>(n::nat) (q::string). [Raise (ProviderError ''TimeoutError'' ''ratelimit: timed out'')]"
  have h: "fst (search_from_ddgs 3 (?P (provider_calls world0) ''rust''))
      = Inl (ProviderError ''TimeoutError'' ''ratelimit: timed out'')"
    by (simp add: search_from_ddgs_def range_len_def numeral_3_eq_3)
  from run_body_classifies_failure [of 3 ?P world0 "''rust''", OF h, of True]
  show ?thesis by (simp add: world0_def)
qed

text \<open>
  Claim C10. Every error that \<^verbatim>\<open>run\<close> raises to its caller carries one of exactly two
  fixed messages, \<^verbatim>\<open>Rate limit exceeded\<close> when the message of the underlying failure
  contains \<^verbatim>\<open>Ratelimit\<close> and \<^verbatim>\<open>An error occurred during search\<close> otherwise. The
  underlying error \<open>e\<close> of the provider call is only the chained cause, and its message
  appears otherwise only in the line printed last (in the second case).
\<close>

theorem run_error_messages:
  assumes "fst (run P query max_results as_string w) = Inl x"
  shows "\<exists>e n. fst (search_from_ddgs max_results (P n query)) = Inl e
           \<and> x = DuckDuckGoSearchException
                (if str_contains ''Ratelimit'' (py_str e) then ''Rate limit exceeded''
                 else ''An error occurred during search'') e
           \<and> (py_str x = ''Rate limit exceeded'' \<or> py_str x = ''An error occurred during search'')
           \<and> last (stdout (snd (run P query max_results as_string w))) =
                (if str_contains ''Ratelimit'' (py_str e)
                 then ''Rate limit hit for query: '' @ query @ ''. Retrying...''
                 else ''An error occurred: '' @ py_str e)"
proof -
  obtain w0 where w0: "run_body P query max_results as_string w0 = run P query max_results as_string w"
    using run_result by blast
  with assms have "fst (run_body P query max_results as_string w0) = Inl x" by simp
  from run_body_Inl_iff [OF this] obtain e where
    e: "fst (search_from_ddgs max_results (P (provider_calls w0) query)) = Inl e"
    and x: "x = DuckDuckGoSearchException
          (if str_contains ''Ratelimit'' (py_str e) then ''Rate limit exceeded''
           else ''An error occurred during search'') e"
    and l: "stdout (snd (run_body P query max_results as_string w0)) = stdout w0 @
          [if str_contains ''Ratelimit'' (py_str e)
           then ''Rate limit hit for query: '' @ query @ ''. Retrying...''
           else ''An error occurred: '' @ py_str e]"
    by blast
  from l w0 have "last (stdout (snd (run P query max_results as_string w))) =
      (if str_contains ''Ratelimit'' (py_str e)
       then ''Rate limit hit for query: '' @ query @ ''. Retrying...''
       else ''An error occurred: '' @ py_str e)"
    by simp
  moreover from x have "py_str x = ''Rate limit exceeded'' \<or> py_str x = ''An error occurred during search''"
    by simp
  ultimately show ?thesis using e x by blast
qed

theorem run_error_messages_witness:
  "last (stdout (snd (run always_ratelimited ''rust'' 3 True world0))) =
     ''Rate limit hit for query: rust. Retrying...''"
proof -
  have h: "fst (run always_ratelimited ''rust'' 3 True world0) =
     Inl (DuckDuckGoSearchException ''Rate limit exceeded''
        (ProviderError ''Exception'' ''Ratelimit exceeded''))"
    by (simp add: always_ratelimited_run)
  from run_error_messages [OF h] show ?thesis by auto
qed

section \<open>The retry policy\<close>

text \<open>
  Claim C3. When the five provider calls of a call of \<^verbatim>\<open>run\<close> all fail, \<^verbatim>\<open>run\<close> raises the
  \<^verbatim>\<open>DuckDuckGoSearchException\<close> of the fifth attempt as it is, the provider has been called
  exactly five times, and the waits between the attempts are those of the exponential
  backoff, \<open>4, 4, 4, 8\<close>. The wait after attempt \<open>n\<close> is \<open>min (10, 1 * 2 ^ (n - 1))\<close> raised to
  at least \<open>4\<close>, so it lies in \<open>[4, 10]\<close> and never decreases from one attempt to the next.
  An exception of another class is not retried: the loop raises it at once.
\<close>

theorem run_retry_policy:
  assumes "\<forall>i<5. isl (fst (search_from_ddgs max_results (P (provider_calls w + i) query)))"
  shows "(\<exists>e. fst (search_from_ddgs max_results (P (provider_calls w + 4) query)) = Inl e
            \<and> fst (run P query max_results as_string w) =
                Inl (DuckDuckGoSearchException
                  (if str_contains ''Ratelimit'' (py_str e) then ''Rate limit exceeded''
                   else ''An error occurred during search'') e))
       \<and> provider_calls (snd (run P query max_results as_string w)) = provider_calls w + 5
       \<and> slept (snd (run P query max_results as_string w)) =
            slept w @ [wait_exponential 1, wait_exponential 2, wait_exponential 3, wait_exponential 4]
       \<and> [wait_exponential 1, wait_exponential 2, wait_exponential 3, wait_exponential 4] = [4, 4, 4, 8]
       \<and> wait_exponential n = max 4 (min 10 (1 * 2 ^ (n - 1)))
       \<and> 4 \<le> wait_exponential n \<and> wait_exponential n \<le> 10
       \<and> (n \<le> m \<longrightarrow> wait_exponential n \<le> wait_exponential m)
       \<and> (fn w0 = (Inl e0, w1) \<and> \<not> retry_if_exception_type e0 \<longrightarrow>
            retrying fn n w0 = (Inl e0, w1))"
proof -
  have "\<forall>i\<le>5 - 1. isl (fst (search_from_ddgs max_results (P (provider_calls w + i) query)))"
    using assms by simp
  from retrying_all_fail [of 1 max_results P w query as_string, OF _ _ this]
  have a: "provider_calls (snd (run P query max_results as_string w)) = provider_calls w + 5"
    and b: "slept (snd (run P query max_results as_string w)) = slept w @ map wait_exponential [1..<5]"
    and c: "\<exists>e. fst (search_from_ddgs max_results (P (provider_calls w + 4) query)) = Inl e
            \<and> fst (run P query max_results as_string w) =
                Inl (DuckDuckGoSearchException
                  (if str_contains ''Ratelimit'' (py_str e) then ''Rate limit exceeded''
                   else ''An error occurred during search'') e)"
    by (simp_all add: run_def)
  have u: "[1..<5] = [1, 2, 3, 4::nat]" by (simp add: upt_rec)
  have d: "[wait_exponential 1, wait_exponential 2, wait_exponential 3, wait_exponential 4] = [4, 4, 4, 8]"
    by (simp add: wait_exponential_def)
  have e: "wait_exponential n = max 4 (min 10 (1 * 2 ^ (n - 1)))"
    by (simp add: wait_exponential_def min.commute)
  have f: "4 \<le> wait_exponential n \<and> wait_exponential n \<le> 10"
    by (simp add: wait_exponential_def)
  have g: "n \<le> m \<longrightarrow> wait_exponential n \<le> wait_exponential m"
    by (simp add: wait_exponential_mono)
  have h: "fn w0 = (Inl e0, w1) \<and> \<not> retry_if_exception_type e0 \<longrightarrow>
            retrying fn n w0 = (Inl e0, w1)"
    by (simp add: retrying_no_retry)
  from b u have b': "slept (snd (run P query max_results as_string w)) =
      slept w @ [wait_exponential 1, wait_exponential 2, wait_exponential 3, wait_exponential 4]"
    by simp
  from a b' c d e f g h show ?thesis by blast
qed

theorem run_retry_policy_witness:
  "fst (run always_ratelimited ''rust'' 3 True world0) =
     Inl (DuckDuckGoSearchException ''Rate limit exceeded''
        (ProviderError ''Exception'' ''Ratelimit exceeded''))
   \<and> provider_calls (snd (run always_ratelimited ''rust'' 3 True world0)) = 5
   \<and> slept (snd (run always_ratelimited ''rust'' 3 True world0)) = [4, 4, 4, 8]
   \<and> retrying (\<lambda>w. (Inl (KeyError ''href'') :: exn + retval, w)) 1 world0 =
       (Inl (KeyError ''href''), world0)"
proof -
  have h: "\<forall>i<5. isl (fst (search_from_ddgs 3
      (always_ratelimited (provider_calls world0 + i) ''rust'')))"
    by (simp add: always_ratelimited_def search_from_ddgs_def range_len_def numeral_3_eq_3)
  have s: "fst (search_from_ddgs 3 (always_ratelimited k ''rust'')) =
      Inl (ProviderError ''Exception'' ''Ratelimit exceeded'')" for k
    by (simp add: always_ratelimited_def search_from_ddgs_def range_len_def numeral_3_eq_3)
  have r: "\<not> retry_if_exception_type (KeyError ''href'')"
    by (simp add: retry_if_exception_type_def)
  from run_retry_policy [where P = always_ratelimited and w = world0 and query = "''rust''"
      and max_results = 3 and as_string = True and n = 1 and m = 1
      and fn = "\<lambda>w. (Inl (KeyError ''href'') :: exn + retval, w)"
      and ?w0.0 = world0 and ?e0.0 = "KeyError ''href''" and ?w1.0 = world0, OF h]
  show ?thesis using r by (simp add: s world0_def)
qed

lemma zip_comprehension_raise:
  "length recs < n \<Longrightarrow>
   isl (fst (zip_comprehension n (map Yield recs @ Raise e # rest)))
   \<and> ((\<forall>i\<in>set recs. has_fields i) \<longrightarrow>
        fst (zip_comprehension n (map Yield recs @ Raise e # rest)) = Inl e)"
proof (induction recs arbitrary: n)
  case Nil
  then obtain n' where "n = Suc n'" by (cases n) auto
  then show ?case by simp
next
  case (Cons i recs)
  then obtain n' where n: "n = Suc n'" and l: "length recs < n'" by (cases n) auto
  from Cons.IH [OF l] show ?case
    unfolding n
    by (auto simp: fst_zip_comprehension_Yield result_of_record_has_fields
        simp del: zip_comprehension.simps split: sum.splits)
qed

lemma run_Inr:
  assumes "fst (run P q k a w) = Inr v"
  shows "\<exists>n rs. fst (search_from_ddgs k (P n q)) = Inr rs
           \<and> v = (if a then Str (json_dumps rs) else Lst rs)"
proof -
  obtain w0 where "run_body P q k a w0 = run P q k a w" using run_result by blast
  with assms have "fst (run_body P q k a w0) = Inr v" by simp
  from run_body_Inr_iff [OF this] show ?thesis by blast
qed

lemma flaky_run:
  "fst (run flaky ''q'' 3 False world0) =
     Inr (Lst [[(''link'', ''https://a.example''), (''snippet'', ''first''), (''title'', ''A'')],
               [(''link'', ''https://b.example''), (''snippet'', ''second''), (''title'', ''B'')]])"
  by (simp add: run_def retrying.simps run_body_def flaky_def world0_def record1_def record2_def
      search_from_ddgs_def range_len_def numeral_3_eq_3 Let_def retry_if_exception_type_def
      stop_after_attempt_def sleep_def wait_exponential_def result_of_record_def)

lemma zip_comprehension_malformed:
  "length recs < n \<Longrightarrow> \<forall>r\<in>set recs. has_fields r \<Longrightarrow> result_of_record i = Inl x \<Longrightarrow>
   fst (zip_comprehension n (map Yield recs @ Yield i # rest)) = Inl x"
proof (induction recs arbitrary: n)
  case Nil
  then obtain n' where "n = Suc n'" by (cases n) auto
  with Nil show ?case by simp
next
  case (Cons r recs)
  then obtain n' where n: "n = Suc n'" and l: "length recs < n'" by (cases n) auto
  from Cons.prems have "has_fields r" "\<forall>r\<in>set recs. has_fields r" by simp_all
  with Cons.IH [OF l _ Cons.prems(3)] show ?case
    unfolding n
    by (simp add: fst_zip_comprehension_Yield result_of_record_has_fields
        del: zip_comprehension.simps)
qed

lemma result_of_record_missing:
  "\<not> has_fields i \<Longrightarrow>
   \<exists>f. (f = ''href'' \<or> f = ''body'' \<or> f = ''title'') \<and> i f = None
     \<and> result_of_record i = Inl (KeyError f)"
  by (auto simp: has_fields_def result_of_record_def split: option.splits)

lemma KeyError_not_ratelimit:
  "f = ''href'' \<or> f = ''body'' \<or> f = ''title'' \<Longrightarrow>
   \<not> str_contains ''Ratelimit'' (py_str (KeyError f))"
  by auto

text \<open>
  Claim C8. No partial results on failure. When the stream of the provider raises after
  fewer than \<open>max_results\<close> records, the search invocation raises (the error of the stream
  itself when the records before it are complete) and so does the attempt: the records
  already consumed are not returned. And whatever \<^verbatim>\<open>run\<close> returns is the whole list of one
  provider call that did not fail, or its serialisation.
\<close>

theorem no_partial_results:
  assumes "P (provider_calls w) query = map Yield recs @ Raise e # rest"
    and "int (length recs) < max_results"
  shows "isl (fst (search_from_ddgs max_results (P (provider_calls w) query)))
       \<and> ((\<forall>i\<in>set recs. has_fields i) \<longrightarrow>
            fst (search_from_ddgs max_results (P (provider_calls w) query)) = Inl e)
       \<and> isl (fst (run_body P query max_results as_string w))
       \<and> (fst (run P query max_results as_string w) = Inr v \<longrightarrow>
            (\<exists>n rs. fst (search_from_ddgs max_results (P n query)) = Inr rs
               \<and> v = (if as_string then Str (json_dumps rs) else Lst rs)))"
proof -
  from assms(2) have "length recs < range_len max_results"
    by (simp add: range_len_def)
  from zip_comprehension_raise [OF this, of e rest]
  have a: "isl (fst (search_from_ddgs max_results (P (provider_calls w) query)))"
    and b: "(\<forall>i\<in>set recs. has_fields i) \<longrightarrow>
            fst (search_from_ddgs max_results (P (provider_calls w) query)) = Inl e"
    by (simp_all add: search_from_ddgs_def assms(1))
  from a obtain x where "fst (search_from_ddgs max_results (P (provider_calls w) query)) = Inl x"
    by (auto simp: isl_def)
  then have c: "isl (fst (run_body P query max_results as_string w))"
    by (simp add: run_body_Inl)
  from a b c run_Inr [of P query max_results as_string w v] show ?thesis by blast
qed

theorem no_partial_results_witness:
  "fst (search_from_ddgs 3 (flaky 0 ''q'')) = Inl (ProviderError ''ConnectionError'' ''reset'')
   \<and> isl (fst (run_body flaky ''q'' 3 False world0))
   \<and> (\<exists>n rs. fst (search_from_ddgs 3 (flaky n ''q'')) = Inr rs
        \<and> rs = [[(''link'', ''https://a.example''), (''snippet'', ''first''), (''title'', ''A'')],
                 [(''link'', ''https://b.example''), (''snippet'', ''second''), (''title'', ''B'')]])"
proof -
  have h1: "flaky (provider_calls world0) ''q'' =
      map Yield [record1] @ Raise (ProviderError ''ConnectionError'' ''reset'') # [Yield record2]"
    by (simp add: flaky_def world0_def)
  have h2: "int (length [record1]) < 3" by simp
  have h3: "\<forall>i\<in>set [record1]. has_fields i" by (simp add: has_fields_def record1_def)
  have p: "provider_calls world0 = 0" by (simp add: world0_def)
  from no_partial_results [where P = flaky and w = world0, OF h1 h2, of False
      "Lst [[(''link'', ''https://a.example''), (''snippet'', ''first''), (''title'', ''A'')],
            [(''link'', ''https://b.example''), (''snippet'', ''second''), (''title'', ''B'')]]"]
    h3 flaky_run
  show ?thesis by (simp add: p)
qed

text \<open>
  Claim C4, as stated, fails. A record without \<^verbatim>\<open>title\<close> makes \<^verbatim>\<open>i["title"]\<close> raise
  \<^verbatim>\<open>KeyError\<close>, which the \<^verbatim>\<open>except Exception\<close> clause of \<^verbatim>\<open>run\<close> turns into
  \<^verbatim>\<open>DuckDuckGoSearchException\<close>: it is retried, and with a provider that always answers so
  the caller gets that exception after five provider calls and the waits \<open>4, 4, 4, 8\<close>.
\<close>

theorem malformed_record_counterexample:
  "fst (run untitled ''q'' 1 False world0) =
     Inl (DuckDuckGoSearchException ''An error occurred during search'' (KeyError ''title''))
   \<and> fst (run untitled ''q'' 1 False world0) \<noteq> Inl (KeyError ''title'')
   \<and> provider_calls (snd (run untitled ''q'' 1 False world0)) = 5
   \<and> slept (snd (run untitled ''q'' 1 False world0)) = [4, 4, 4, 8]"
  by (simp add: run_def retrying.simps run_body_def untitled_def world0_def
      search_from_ddgs_def range_len_def Let_def retry_if_exception_type_def
      stop_after_attempt_def sleep_def wait_exponential_def result_of_record_def)

text \<open>
  Claim C4, amended. If one of the first \<open>max_results\<close> records of the stream lacks
  \<^verbatim>\<open>href\<close>, \<^verbatim>\<open>body\<close> or \<^verbatim>\<open>title\<close>, the records before it being complete, the search
  invocation raises \<^verbatim>\<open>KeyError\<close> for a missing field, the attempt raises
  \<^verbatim>\<open>DuckDuckGoSearchException\<close> with the message \<^verbatim>\<open>An error occurred during search\<close>, and
  this is retried like any other failure of the provider: \<^verbatim>\<open>run\<close> waits \<open>4\<close> and goes on
  with attempt \<open>2\<close>.
\<close>

theorem malformed_record_is_retried:
  assumes "P (provider_calls w) query = map Yield recs @ Yield i # rest"
    and "int (length recs) < max_results"
    and "\<forall>r\<in>set recs. has_fields r"
    and "\<not> has_fields i"
  shows "\<exists>f. (f = ''href'' \<or> f = ''body'' \<or> f = ''title'') \<and> i f = None
           \<and> fst (search_from_ddgs max_results (P (provider_calls w) query)) = Inl (KeyError f)
           \<and> fst (run_body P query max_results as_string w) =
                Inl (DuckDuckGoSearchException ''An error occurred during search'' (KeyError f))
           \<and> retry_if_exception_type
                (DuckDuckGoSearchException ''An error occurred during search'' (KeyError f))
           \<and> run P query max_results as_string w =
                retrying (run_body P query max_results as_string) 2
                  (sleep 4 (snd (run_body P query max_results as_string w)))"
proof -
  from result_of_record_missing [OF assms(4)] obtain f where
    f: "f = ''href'' \<or> f = ''body'' \<or> f = ''title''" and n: "i f = None"
    and r: "result_of_record i = Inl (KeyError f)" by blast
  from assms(2) have "length recs < range_len max_results" by (simp add: range_len_def)
  from zip_comprehension_malformed [OF this assms(3) r, of rest]
  have s: "fst (search_from_ddgs max_results (P (provider_calls w) query)) = Inl (KeyError f)"
    by (simp add: search_from_ddgs_def assms(1))
  have c: "\<not> str_contains ''Ratelimit'' (py_str (KeyError f))"
    using f by (rule KeyError_not_ratelimit)
  define x where "x = DuckDuckGoSearchException ''An error occurred during search'' (KeyError f)"
  define w1 where "w1 = snd (run_body P query max_results as_string w)"
  have b: "run_body P query max_results as_string w = (Inl x, w1)"
    using c by (simp add: w1_def x_def run_body_Inl [where P = P and w = w, OF s])
  have t: "retry_if_exception_type x" by (simp add: x_def retry_if_exception_type_def)
  have "\<not> stop_after_attempt 1" by (simp add: stop_after_attempt_def)
  with b t have "retrying (run_body P query max_results as_string) 1 w =
      retrying (run_body P query max_results as_string) (1 + 1) (sleep (wait_exponential 1) w1)"
    by (rule retrying_again)
  then have g: "run P query max_results as_string w =
      retrying (run_body P query max_results as_string) 2 (sleep 4 w1)"
    by (simp add: run_def wait_exponential_def numeral_2_eq_2)
  from b have b1: "fst (run_body P query max_results as_string w) = Inl x" by simp
  from f n s b1 t g show ?thesis
    unfolding x_def w1_def by (intro exI [of _ f]) simp
qed

theorem malformed_record_is_retried_witness:
  "fst (run_body untitled ''q'' 1 False world0) =
     Inl (DuckDuckGoSearchException ''An error occurred during search'' (KeyError ''title''))
   \<and> run untitled ''q'' 1 False world0 =
       retrying (run_body untitled ''q'' 1 False) 2
         (sleep 4 (snd (run_body untitled ''q'' 1 False world0)))"
proof -
  let ?i = "[''href'' \<mapsto> ''https://a.example'', ''body'' \<mapsto> ''first''] :: provider_record"
  have h1: "untitled (provider_calls world0) ''q'' = map Yield [] @ Yield ?i # []"
    by (simp add: untitled_def)
  have h2: "int (length ([] :: provider_record list)) < 1" by simp
  have h3: "\<forall>r\<in>set ([] :: provider_record list). has_fields r" by simp
  have h4: "\<not> has_fields ?i" by (simp add: has_fields_def)
  have k: "?i ''href'' \<noteq> None" "?i ''body'' \<noteq> None" by simp_all
  from malformed_record_is_retried [where P = untitled and w = world0, OF h1 h2 h3 h4, of False]
  obtain f where "f = ''href'' \<or> f = ''body'' \<or> f = ''title''" "?i f = None"
    and r: "fst (run_body untitled ''q'' 1 False world0) =
                Inl (DuckDuckGoSearchException ''An error occurred during search'' (KeyError f))"
       "run untitled ''q'' 1 False world0 =
                retrying (run_body untitled ''q'' 1 False) 2
                  (sleep 4 (snd (run_body untitled ''q'' 1 False world0)))"
    by blast
  with k have "f = ''title''" by auto
  with r show ?thesis by simp
qed

section \<open>The two return forms\<close>

lemma result_of_record_keys: "result_of_record i = Inr r \<Longrightarrow> distinct (map fst r)"
  by (auto simp: result_of_record_def split: option.splits)

lemma zip_comprehension_keys:
  "fst (zip_comprehension n ps) = Inr rs \<Longrightarrow> \<forall>d\<in>set rs. distinct (map fst d)"
proof (induction n ps arbitrary: rs rule: zip_comprehension.induct)
  case (4 n i ps)
  from "4.prems" obtain r rs' where r: "result_of_record i = Inr r"
    and z: "fst (zip_comprehension n ps) = Inr rs'" and rs: "rs = r # rs'"
    by (auto simp: fst_zip_comprehension_Yield simp del: zip_comprehension.simps
        split: sum.splits)
  from "4.IH" [OF r z] result_of_record_keys [OF r] rs show ?case by simp
qed auto

lemma retrying_as_string:
  "fst (retrying (run_body P q k False) n w) = Inr (Lst rs) \<Longrightarrow>
   fst (retrying (run_body P q k True) n w) = Inr (Str (json_dumps rs))
   \<and> snd (retrying (run_body P q k True) n w) = snd (retrying (run_body P q k False) n w)"
proof (induction "5 - n" arbitrary: n w)
  case 0
  then have s: "stop_after_attempt n" by (simp add: stop_after_attempt_def)
  show ?case
  proof (cases "fst (search_from_ddgs k (P (provider_calls w) q))")
    case (Inl e)
    define x where "x = DuckDuckGoSearchException
       (if str_contains ''Ratelimit'' (py_str e) then ''Rate limit exceeded''
        else ''An error occurred during search'') e"
    define w1 where "w1 = snd (run_body P q k False w)"
    have b: "run_body P q k False w = (Inl x, w1)"
      by (simp add: w1_def x_def run_body_Inl [where P = P and w = w, OF Inl])
    from b s have "retrying (run_body P q k False) n w = (Inl x, w1)"
      by (rule retrying_stop)
    with "0.prems" show ?thesis by simp
  next
    case (Inr rs0)
    define w1 where "w1 = snd (run_body P q k False w)"
    have b: "run_body P q k a w = (Inr (if a then Str (json_dumps rs0) else Lst rs0), w1)" for a
      by (simp add: w1_def run_body_Inr [where P = P and w = w, OF Inr])
    have r: "retrying (run_body P q k a) n w =
        (Inr (if a then Str (json_dumps rs0) else Lst rs0), w1)" for a
      using b by (rule retrying_Inr)
    from "0.prems" show ?thesis by (simp add: r)
  qed
next
  case (Suc m)
  then have s: "\<not> stop_after_attempt n" and m: "m = 5 - (n + 1)"
    by (simp_all add: stop_after_attempt_def)
  show ?case
  proof (cases "fst (search_from_ddgs k (P (provider_calls w) q))")
    case (Inl e)
    define x where "x = DuckDuckGoSearchException
       (if str_contains ''Ratelimit'' (py_str e) then ''Rate limit exceeded''
        else ''An error occurred during search'') e"
    define w1 where "w1 = snd (run_body P q k False w)"
    have b: "run_body P q k a w = (Inl x, w1)" for a
      by (simp add: w1_def x_def run_body_Inl [where P = P and w = w, OF Inl])
    have r: "retry_if_exception_type x" by (simp add: x_def retry_if_exception_type_def)
    have step: "retrying (run_body P q k a) n w =
        retrying (run_body P q k a) (n + 1) (sleep (wait_exponential n) w1)" for a
      using b r s by (rule retrying_again)
    from Suc.prems have "fst (retrying (run_body P q k False) (n + 1)
        (sleep (wait_exponential n) w1)) = Inr (Lst rs)"
      by (simp only: step)
    from Suc.hyps(1) [OF m this] show ?thesis by (simp only: step)
  next
    case (Inr rs0)
    define w1 where "w1 = snd (run_body P q k False w)"
    have b: "run_body P q k a w = (Inr (if a then Str (json_dumps rs0) else Lst rs0), w1)" for a
      by (simp add: w1_def run_body_Inr [where P = P and w = w, OF Inr])
    have r: "retrying (run_body P q k a) n w =
        (Inr (if a then Str (json_dumps rs0) else Lst rs0), w1)" for a
      using b by (rule retrying_Inr)
    from Suc.prems show ?thesis by (simp add: r)
  qed
qed

lemma run_Lst_keys:
  assumes "fst (run P q k False w) = Inr (Lst rs)"
  shows "\<forall>d\<in>set rs. distinct (map fst d)"
proof -
  from run_Inr [OF assms] obtain n where "fst (search_from_ddgs k (P n q)) = Inr rs" by auto
  then show ?thesis unfolding search_from_ddgs_def by (rule zip_comprehension_keys)
qed

lemma escape_char_non_ascii:
  assumes "0x80 \<le> (of_char c :: nat)"
  shows "escape_char c = [c]"
proof -
  have "c \<noteq> CHR 0x5C" "c \<noteq> CHR 0x22" "c \<noteq> CHR 0x08" "c \<noteq> CHR 0x0C"
    "c \<noteq> CHR 0x0A" "c \<noteq> CHR 0x0D" "c \<noteq> CHR 0x09"
    using assms by auto
  moreover have "\<not> (of_char c :: nat) < 0x20" using assms by simp
  ultimately show ?thesis by (simp add: escape_char_def)
qed

lemma accented_run:
  "fst (run accented ''q'' 1 False world0) =
     Inr (Lst [[(''link'', ''https://c.example''),
                (''snippet'', [CHR ''c'', CHR ''a'', CHR ''f'', CHR 0xC3, CHR 0xA9, CHR 0x22]),
                (''title'', ''C'')]])"
  by (simp add: run_def retrying.simps run_body_def accented_def world0_def
      search_from_ddgs_def range_len_def Let_def result_of_record_def)

lemma accented_dumps:
  "json_dumps [[(''link'', ''https://c.example''),
                (''snippet'', [CHR ''c'', CHR ''a'', CHR ''f'', CHR 0xC3, CHR 0xA9, CHR 0x22]),
                (''title'', ''C'')]] =
   ''[{'' @ [CHR 0x22] @ ''link'' @ [CHR 0x22] @ '': '' @ [CHR 0x22] @ ''https://c.example'' @ [CHR 0x22]
   @ '', '' @ [CHR 0x22] @ ''snippet'' @ [CHR 0x22] @ '': '' @ [CHR 0x22]
   @ [CHR ''c'', CHR ''a'', CHR ''f'', CHR 0xC3, CHR 0xA9, CHR 0x5C, CHR 0x22] @ [CHR 0x22]
   @ '', '' @ [CHR 0x22] @ ''title'' @ [CHR 0x22] @ '': '' @ [CHR 0x22] @ ''C'' @ [CHR 0x22] @ ''}]''"
  by (simp add: json_dumps_def dumps_dict_def dumps_item_def encode_basestring_def escape_char_def)

text \<open>
  Claim C2. When \<^verbatim>\<open>run\<close> with \<open>as_string\<close> false returns the list \<open>rs\<close>, then \<^verbatim>\<open>run\<close> with
  \<open>as_string\<close> true, on the same provider output, returns exactly the JSON array
  serialisation of \<open>rs\<close> and leaves the same world; reading that string as JSON gives
  \<open>rs\<close> again, the same elements in the same order; and a character outside ASCII is
  written as it is, without an escape.
\<close>

theorem as_string_is_json_of_list:
  assumes "fst (run P query max_results False w) = Inr (Lst rs)"
  shows "fst (run P query max_results True w) = Inr (Str (json_dumps rs))
       \<and> snd (run P query max_results True w) = snd (run P query max_results False w)
       \<and> json_loads (json_dumps rs) = Some rs
       \<and> (\<forall>c. 0x80 \<le> (of_char c :: nat) \<longrightarrow> escape_char c = [c])"
proof -
  from assms have "fst (retrying (run_body P query max_results False) 1 w) = Inr (Lst rs)"
    by (simp add: run_def)
  from retrying_as_string [OF this]
  have "fst (run P query max_results True w) = Inr (Str (json_dumps rs))"
    "snd (run P query max_results True w) = snd (run P query max_results False w)"
    by (simp_all add: run_def)
  moreover have "json_loads (json_dumps rs) = Some rs"
    using run_Lst_keys [OF assms] by (rule json_loads_dumps)
  ultimately show ?thesis by (simp add: escape_char_non_ascii)
qed

theorem as_string_is_json_of_list_witness:
  "fst (run accented ''q'' 1 True world0) =
     Inr (Str (''[{'' @ [CHR 0x22] @ ''link'' @ [CHR 0x22] @ '': '' @ [CHR 0x22] @ ''https://c.example'' @ [CHR 0x22]
       @ '', '' @ [CHR 0x22] @ ''snippet'' @ [CHR 0x22] @ '': '' @ [CHR 0x22]
       @ [CHR ''c'', CHR ''a'', CHR ''f'', CHR 0xC3, CHR 0xA9, CHR 0x5C, CHR 0x22] @ [CHR 0x22]
       @ '', '' @ [CHR 0x22] @ ''title'' @ [CHR 0x22] @ '': '' @ [CHR 0x22] @ ''C'' @ [CHR 0x22] @ ''}]''))
   \<and> json_loads (''[{'' @ [CHR 0x22] @ ''link'' @ [CHR 0x22] @ '': '' @ [CHR 0x22] @ ''https://c.example'' @ [CHR 0x22]
       @ '', '' @ [CHR 0x22] @ ''snippet'' @ [CHR 0x22] @ '': '' @ [CHR 0x22]
       @ [CHR ''c'', CHR ''a'', CHR ''f'', CHR 0xC3, CHR 0xA9, CHR 0x5C, CHR 0x22] @ [CHR 0x22]
       @ '', '' @ [CHR 0x22] @ ''title'' @ [CHR 0x22] @ '': '' @ [CHR 0x22] @ ''C'' @ [CHR 0x22] @ ''}]'') =
     Some [[(''link'', ''https://c.example''),
            (''snippet'', [CHR ''c'', CHR ''a'', CHR ''f'', CHR 0xC3, CHR 0xA9, CHR 0x22]),
            (''title'', ''C'')]]
   \<and> escape_char (CHR 0xC3) = [CHR 0xC3]"
  using as_string_is_json_of_list [OF accented_run]
  unfolding accented_dumps by simp

section \<open>The cache\<close>

lemma cached_run_hit:
  "cache_get w (q, k, a) = Some v \<Longrightarrow> cached_run P q k a w = (Inr v, w)"
  by (simp add: cached_run_def)

lemma cached_run_miss:
  "cache_get w (q, k, a) = None \<Longrightarrow> run P q k a w = (Inr v, w1) \<Longrightarrow>
   cached_run P q k a w = (Inr v, cache_set (q, k, a) v w1)"
  by (simp add: cached_run_def)

lemma flaky_run_world:
  "run flaky ''q'' 3 False world0 =
     (Inr (Lst [[(''link'', ''https://a.example''), (''snippet'', ''first''), (''title'', ''A'')],
                [(''link'', ''https://b.example''), (''snippet'', ''second''), (''title'', ''B'')]]),
      world0\<lparr>provider_calls := 2, records_pulled := 5, limiter_acquired := 2,
        stdout := [''An error occurred: reset''], slept := [4], now := 4\<rparr>)"
  by (simp add: run_def retrying.simps run_body_def flaky_def world0_def record1_def record2_def
      search_from_ddgs_def range_len_def numeral_3_eq_3 Let_def retry_if_exception_type_def
      stop_after_attempt_def sleep_def wait_exponential_def result_of_record_def)

text \<open>
  Claim C5. On a miss, \<^verbatim>\<open>cached_run\<close> runs the full chain and stores the result under
  the triple (query, max_results, as_string), to expire \<open>300\<close> seconds later. A call with
  the same triple in a later world that still holds the entry, less than \<open>300\<close> seconds
  after it was stored, returns the stored value and leaves the world as it is: no
  provider call, no token of the limiter, no retry, whatever the provider would answer.
\<close>

theorem cached_run_hit_and_miss:
  assumes "cache_get w (query, max_results, as_string) = None"
    and "run P query max_results as_string w = (Inr v, w1)"
    and "cache w2 (query, max_results, as_string) = Some (v, now w1 + 300)"
    and "now w2 < now w1 + 300"
  shows "cached_run P query max_results as_string w =
           (Inr v, w1\<lparr>cache := (cache w1)((query, max_results, as_string) \<mapsto> (v, now w1 + 300))\<rparr>)
       \<and> cached_run P' query max_results as_string w2 = (Inr v, w2)
       \<and> provider_calls (snd (cached_run P' query max_results as_string w2)) = provider_calls w2
       \<and> limiter_acquired (snd (cached_run P' query max_results as_string w2)) = limiter_acquired w2
       \<and> slept (snd (cached_run P' query max_results as_string w2)) = slept w2"
proof -
  have m: "cached_run P query max_results as_string w =
      (Inr v, w1\<lparr>cache := (cache w1)((query, max_results, as_string) \<mapsto> (v, now w1 + 300))\<rparr>)"
    using cached_run_miss [OF assms(1,2)] by (simp add: cache_set_def)
  have "cache_get w2 (query, max_results, as_string) = Some v"
    using assms(3,4) by (simp add: cache_get_def)
  then have h: "cached_run P' query max_results as_string w2 = (Inr v, w2)"
    by (rule cached_run_hit)
  from m h show ?thesis by simp
qed

theorem cached_run_hit_and_miss_witness:
  "cached_run always_ratelimited ''q'' 3 False
     ((snd (cached_run flaky ''q'' 3 False world0))\<lparr>now := 303\<rparr>)
   = (Inr (Lst [[(''link'', ''https://a.example''), (''snippet'', ''first''), (''title'', ''A'')],
                [(''link'', ''https://b.example''), (''snippet'', ''second''), (''title'', ''B'')]]),
      (snd (cached_run flaky ''q'' 3 False world0))\<lparr>now := 303\<rparr>)"
proof -
  let ?v = "Lst [[(''link'', ''https://a.example''), (''snippet'', ''first''), (''title'', ''A'')],
                [(''link'', ''https://b.example''), (''snippet'', ''second''), (''title'', ''B'')]]"
  let ?w1 = "world0\<lparr>provider_calls := 2, records_pulled := 5, limiter_acquired := 2,
        stdout := [''An error occurred: reset''], slept := [4], now := 4\<rparr>"
  let ?w2 = "(snd (cached_run flaky ''q'' 3 False world0))\<lparr>now := 303\<rparr>"
  have h1: "cache_get world0 (''q'', 3, False) = None"
    by (simp add: cache_get_def world0_def)
  have h2: "run flaky ''q'' 3 False world0 = (Inr ?v, ?w1)" by (rule flaky_run_world)
  have c: "cached_run flaky ''q'' 3 False world0 = (Inr ?v, cache_set (''q'', 3, False) ?v ?w1)"
    using h1 h2 by (rule cached_run_miss)
  have h3: "cache ?w2 (''q'', 3, False) = Some (?v, now ?w1 + 300)"
    by (simp add: c cache_set_def)
  have h4: "now ?w2 < now ?w1 + 300" by simp
  from cached_run_hit_and_miss [OF h1 h2 h3 h4, of always_ratelimited]
  show ?thesis by (elim conjE)
qed

end
